theory Spec2Isabelle
  imports Complex_Main
begin

section \<open>JavaScript numbers\<close>

text \<open>
  The sampling engine of \<^verbatim>\<open>src/main.js\<close> computes with JavaScript numbers. A number
  is modelled as a real or one of the three non-finite values. Finite arithmetic is
  exact (no rounding, no overflow, no signed zero); the non-finite values follow
  IEEE 754 as JavaScript does. Where a property depends on the rounding of doubles or on
  the sizes an engine accepts, the functions are given a second time with the rounding
  and the limit as parameters (section \<open>The limits of the engine\<close>). \<open>NaN\<close> also stands for \<^verbatim>\<open>undefined\<close>, the value of an
  out-of-range array read: every operator the modelled code applies to such a value
  (\<^verbatim>\<open>+\<close>, \<^verbatim>\<open>*\<close>, \<^verbatim>\<open>/\<close>, \<^verbatim>\<open><\<close>, \<^verbatim>\<open>===\<close> against a number, \<^verbatim>\<open>Math.max\<close>) treats \<^verbatim>\<open>undefined\<close>
  as it treats \<^verbatim>\<open>NaN\<close>.
\<close>

datatype jsnum = Fin real | PInf | NInf | NaN

fun jneg :: "jsnum \<Rightarrow> jsnum" where
  "jneg (Fin a) = Fin (- a)"
| "jneg PInf = NInf"
| "jneg NInf = PInf"
| "jneg NaN = NaN"

fun jadd :: "jsnum \<Rightarrow> jsnum \<Rightarrow> jsnum" where
  "jadd (Fin a) (Fin b) = Fin (a + b)"
| "jadd NaN _ = NaN"
| "jadd _ NaN = NaN"
| "jadd PInf NInf = NaN"
| "jadd NInf PInf = NaN"
| "jadd PInf _ = PInf"
| "jadd _ PInf = PInf"
| "jadd NInf _ = NInf"
| "jadd _ NInf = NInf"

definition jsub :: "jsnum \<Rightarrow> jsnum \<Rightarrow> jsnum" where
  "jsub a b = jadd a (jneg b)"

text \<open>The sign of a product with an infinite factor; a zero factor gives \<open>NaN\<close>.\<close>

definition signed_inf :: "bool \<Rightarrow> jsnum" where
  "signed_inf positive = (if positive then PInf else NInf)"

fun jmul :: "jsnum \<Rightarrow> jsnum \<Rightarrow> jsnum" where
  "jmul (Fin a) (Fin b) = Fin (a * b)"
| "jmul NaN _ = NaN"
| "jmul _ NaN = NaN"
| "jmul (Fin a) PInf = (if a = 0 then NaN else signed_inf (0 < a))"
| "jmul (Fin a) NInf = (if a = 0 then NaN else signed_inf (a < 0))"
| "jmul PInf (Fin b) = (if b = 0 then NaN else signed_inf (0 < b))"
| "jmul NInf (Fin b) = (if b = 0 then NaN else signed_inf (b < 0))"
| "jmul PInf PInf = PInf"
| "jmul NInf NInf = PInf"
| "jmul PInf NInf = NInf"
| "jmul NInf PInf = NInf"

text \<open>Division; a finite zero divisor is the positive zero.\<close>

fun jdiv :: "jsnum \<Rightarrow> jsnum \<Rightarrow> jsnum" where
  "jdiv (Fin a) (Fin b) =
     (if b = 0 then (if a = 0 then NaN else signed_inf (0 < a)) else Fin (a / b))"
| "jdiv NaN _ = NaN"
| "jdiv _ NaN = NaN"
| "jdiv (Fin a) PInf = Fin 0"
| "jdiv (Fin a) NInf = Fin 0"
| "jdiv PInf (Fin b) = signed_inf (0 \<le> b)"
| "jdiv NInf (Fin b) = signed_inf (b < 0)"
| "jdiv PInf PInf = NaN"
| "jdiv NInf NInf = NaN"
| "jdiv PInf NInf = NaN"
| "jdiv NInf PInf = NaN"

text \<open>The comparison \<^verbatim>\<open>a < b\<close>: false as soon as one side is \<open>NaN\<close>.\<close>

fun jlt :: "jsnum \<Rightarrow> jsnum \<Rightarrow> bool" where
  "jlt (Fin a) (Fin b) = (a < b)"
| "jlt NaN _ = False"
| "jlt _ NaN = False"
| "jlt _ NInf = False"
| "jlt PInf _ = False"
| "jlt NInf _ = True"
| "jlt _ PInf = True"

text \<open>Strict equality \<^verbatim>\<open>a === b\<close> of two numbers: \<open>NaN\<close> equals nothing.\<close>

definition strict_eq :: "jsnum \<Rightarrow> jsnum \<Rightarrow> bool" where
  "strict_eq a b = (a \<noteq> NaN \<and> a = b)"

fun Math_exp :: "jsnum \<Rightarrow> jsnum" where
  "Math_exp (Fin a) = Fin (exp a)"
| "Math_exp PInf = PInf"
| "Math_exp NInf = Fin 0"
| "Math_exp NaN = NaN"

fun Math_log :: "jsnum \<Rightarrow> jsnum" where
  "Math_log (Fin a) = (if a < 0 then NaN else if a = 0 then NInf else Fin (ln a))"
| "Math_log PInf = PInf"
| "Math_log NInf = NaN"
| "Math_log NaN = NaN"

fun Math_sqrt :: "jsnum \<Rightarrow> jsnum" where
  "Math_sqrt (Fin a) = (if a < 0 then NaN else Fin (sqrt a))"
| "Math_sqrt PInf = PInf"
| "Math_sqrt NInf = NaN"
| "Math_sqrt NaN = NaN"

text \<open>
  The cosine is exact like the rest of the finite arithmetic: at a quarter turn it is 0,
  where the cosine of doubles is a number of the order of \<open>10^-17\<close>.
\<close>

fun Math_cos :: "jsnum \<Rightarrow> jsnum" where
  "Math_cos (Fin a) = Fin (cos a)"
| "Math_cos PInf = NaN"
| "Math_cos NInf = NaN"
| "Math_cos NaN = NaN"

text \<open>\<^verbatim>\<open>Math.pow(b, j)\<close> for a finite base and a loop counter \<open>j\<close>.\<close>

definition Math_pow :: "real \<Rightarrow> nat \<Rightarrow> jsnum" where
  "Math_pow b j = Fin (b ^ j)"

text \<open>
  \<^verbatim>\<open>Math.max(...xs)\<close>: \<^verbatim>\<open>-Infinity\<close> for no argument, \<open>NaN\<close> as soon as one argument
  is \<open>NaN\<close>.
\<close>

definition jmax :: "jsnum \<Rightarrow> jsnum \<Rightarrow> jsnum" where
  "jmax a b = (if a = NaN \<or> b = NaN then NaN else if jlt a b then b else a)"

definition Math_max :: "jsnum list \<Rightarrow> jsnum" where
  "Math_max xs = fold (\<lambda>x acc. jmax acc x) xs NInf"

text \<open>An array read \<^verbatim>\<open>xs[i]\<close>; out of range it is \<^verbatim>\<open>undefined\<close>.\<close>

definition js_nth :: "jsnum list \<Rightarrow> nat \<Rightarrow> jsnum" where
  "js_nth xs i = (if i < length xs then xs ! i else NaN)"

text \<open>\<^verbatim>\<open>xs.indexOf(v)\<close>: the first index holding a value strictly equal to \<open>v\<close>, else -1.\<close>

fun indexOf_from :: "jsnum list \<Rightarrow> jsnum \<Rightarrow> nat \<Rightarrow> int" where
  "indexOf_from [] v i = - 1"
| "indexOf_from (x # xs) v i = (if strict_eq x v then int i else indexOf_from xs v (Suc i))"

definition indexOf :: "jsnum list \<Rightarrow> jsnum \<Rightarrow> int" where
  "indexOf xs v = indexOf_from xs v 0"

text \<open>
  \<^verbatim>\<open>xs.slice(start, stop)\<close>: a negative index counts from the end, both are clamped
  to the array, and an empty range gives the empty array.
\<close>

definition js_slice :: "'a list \<Rightarrow> int \<Rightarrow> int \<Rightarrow> 'a list" where
  "js_slice xs start stop =
     (let len = int (length xs);
          k = (if start < 0 then max (len + start) 0 else min start len);
          final = (if stop < 0 then max (len + stop) 0 else min stop len)
      in take (nat (final - k)) (drop (nat k) xs))"

section \<open>Poses\<close>

text \<open>
  A flat vector is one time step of the model: \<open>x, y, x, y, ...\<close>. A pose is the same
  data as an array of two-element arrays \<^verbatim>\<open>[x, y]\<close>; the pair \<open>(0, 0)\<close> marks a keypoint
  that is absent.
\<close>

type_synonym flatvec = "jsnum list"
type_synonym keypoint = "jsnum \<times> jsnum"
type_synonym pose = "keypoint list"

text \<open>
  \<^verbatim>\<open>reshapeKeypoints\<close>: the loop reads \<^verbatim>\<open>flat[i]\<close> and \<^verbatim>\<open>flat[i + 1]\<close> for
  \<open>i = 0, 2, 4, ...\<close>; with an odd length the last \<open>y\<close> is read out of range.
\<close>

fun reshapeKeypoints :: "flatvec \<Rightarrow> pose" where
  "reshapeKeypoints [] = []"
| "reshapeKeypoints [x] = [(x, NaN)]"
| "reshapeKeypoints (x # y # rest) = (x, y) # reshapeKeypoints rest"

section \<open>Temporal smoothing\<close>

text \<open>
  The test of the inner loop of \<^verbatim>\<open>smoothPose\<close> that skips a historical pose for
  keypoint \<open>i\<close>: the pose is too short, or its keypoint \<open>i\<close> is \<open>(0, 0)\<close>.
\<close>

definition skipped :: "pose \<Rightarrow> nat \<Rightarrow> bool" where
  "skipped historicalPose i =
     (length historicalPose \<le> i \<or>
      (strict_eq (fst (historicalPose ! i)) (Fin 0) \<and>
       strict_eq (snd (historicalPose ! i)) (Fin 0)))"

text \<open>\<^verbatim>\<open>const weight = 0.6 * Math.pow(0.5, j)\<close>\<close>

definition history_weight :: "nat \<Rightarrow> jsnum" where
  "history_weight j = jmul (Fin 0.6) (Math_pow 0.5 j)"

text \<open>\<^verbatim>\<open>smoothed * (1 - weight) + historical * weight\<close>\<close>

definition blend :: "jsnum \<Rightarrow> jsnum \<Rightarrow> jsnum \<Rightarrow> jsnum" where
  "blend smoothed historical weight =
     jadd (jmul smoothed (jsub (Fin 1) weight)) (jmul historical weight)"

text \<open>
  The inner loop of \<^verbatim>\<open>smoothPose\<close> for keypoint \<open>i\<close>: it walks \<^verbatim>\<open>poseHistory[j]\<close> for
  \<open>j = 0, 1, ...\<close>; the first argument is the part of the history not yet visited,
  the second the index \<open>j\<close> of its head, the last the running
  \<^verbatim>\<open>(smoothedX, smoothedY)\<close>.
\<close>

fun smooth_loop :: "pose list \<Rightarrow> nat \<Rightarrow> nat \<Rightarrow> keypoint \<Rightarrow> keypoint" where
  "smooth_loop [] j i acc = acc"
| "smooth_loop (historicalPose # rest) j i (smoothedX, smoothedY) =
     (if skipped historicalPose i
      then smooth_loop rest (Suc j) i (smoothedX, smoothedY)
      else
        (let weight = history_weight j
         in smooth_loop rest (Suc j) i
              (blend smoothedX (fst (historicalPose ! i)) weight,
               blend smoothedY (snd (historicalPose ! i)) weight)))"

text \<open>The body of the outer loop of \<^verbatim>\<open>smoothPose\<close>: what is pushed for keypoint \<open>i\<close>.\<close>

definition smoothKeypoint :: "pose list \<Rightarrow> nat \<Rightarrow> keypoint \<Rightarrow> keypoint" where
  "smoothKeypoint history i p =
     (if strict_eq (fst p) (Fin 0) \<and> strict_eq (snd p) (Fin 0) then (Fin 0, Fin 0)
      else smooth_loop history 0 i p)"

text \<open>
  \<^verbatim>\<open>smoothPose(newPose)\<close>. The source reads the global \<^verbatim>\<open>poseHistory\<close>; here it is
  the first argument (most recent pose first).
\<close>

definition smoothPose :: "pose list \<Rightarrow> pose \<Rightarrow> pose" where
  "smoothPose history newPose =
     (if length history = 0 then newPose
      else map (\<lambda>i. smoothKeypoint history i (newPose ! i)) [0..<length newPose])"

text \<open>
  The blend as the specification words it, for comparison with \<open>smooth_loop\<close>: the
  same test, weight and update for the \<open>j\<close>-th most recent entry, but applied from the
  oldest entry to the most recent one.
\<close>

fun spec_smooth_loop :: "pose list \<Rightarrow> nat \<Rightarrow> nat \<Rightarrow> keypoint \<Rightarrow> keypoint" where
  "spec_smooth_loop [] j i acc = acc"
| "spec_smooth_loop (historicalPose # older) j i acc =
     (let (valueX, valueY) = spec_smooth_loop older (Suc j) i acc
      in if skipped historicalPose i then (valueX, valueY)
         else (blend valueX (fst (historicalPose ! i)) (history_weight j),
               blend valueY (snd (historicalPose ! i)) (history_weight j)))"

definition spec_smoothKeypoint :: "pose list \<Rightarrow> nat \<Rightarrow> keypoint \<Rightarrow> keypoint" where
  "spec_smoothKeypoint history i p =
     (if strict_eq (fst p) (Fin 0) \<and> strict_eq (snd p) (Fin 0) then (Fin 0, Fin 0)
      else spec_smooth_loop history 0 i p)"

section \<open>The random source\<close>

text \<open>
  \<^verbatim>\<open>Math.random()\<close> returns a finite number in \<open>[0, 1)\<close>. The source of randomness is
  the sequence of the draws still to come; a call takes the first one.
\<close>

type_synonym rng = "nat \<Rightarrow> real"

definition Math_random :: "rng \<Rightarrow> real \<times> rng" where
  "Math_random rs = (rs 0, \<lambda>n. rs (Suc n))"

text \<open>The source whose every draw is \<open>u\<close>.\<close>

definition const_rng :: "real \<Rightarrow> rng" where
  "const_rng u = (\<lambda>n. u)"

section \<open>Sampling from the mixture\<close>

text \<open>\<^verbatim>\<open>sampleFromGaussian(mean, stddev)\<close>: the Box-Muller transform on two draws.\<close>

definition sampleFromGaussian :: "jsnum \<Rightarrow> jsnum \<Rightarrow> rng \<Rightarrow> jsnum \<times> rng" where
  "sampleFromGaussian mean stddev rs =
     (let (u1, rs1) = Math_random rs;
          (u2, rs2) = Math_random rs1;
          z0 = jmul (Math_sqrt (jmul (Fin (- 2)) (Math_log (Fin u1))))
                    (Math_cos (jmul (jmul (Fin 2) (Fin pi)) (Fin u2)))
      in (jadd mean (jmul stddev z0), rs2))"

text \<open>
  The loop of \<^verbatim>\<open>sampleFromCategorical\<close>: the probabilities not yet visited, the index
  \<open>i\<close> of the first of them and the running \<^verbatim>\<open>cumSum\<close>. \<open>None\<close> is the loop running to
  its end without returning.
\<close>

fun categorical_loop :: "real \<Rightarrow> jsnum list \<Rightarrow> nat \<Rightarrow> jsnum \<Rightarrow> nat option" where
  "categorical_loop r [] i cumSum = None"
| "categorical_loop r (p # rest) i cumSum =
     (if jlt (Fin r) (jadd cumSum p) then Some i
      else categorical_loop r rest (Suc i) (jadd cumSum p))"

text \<open>\<^verbatim>\<open>sampleFromCategorical(probs)\<close>, with the fallback after the loop.\<close>

definition sampleFromCategorical :: "jsnum list \<Rightarrow> rng \<Rightarrow> int \<times> rng" where
  "sampleFromCategorical probs rs =
     (let (r, rs1) = Math_random rs
      in (case categorical_loop r probs 0 (Fin 0) of
            Some i \<Rightarrow> int i
          | None \<Rightarrow> indexOf probs (Math_max probs), rs1))"

text \<open>
  The first block of \<^verbatim>\<open>sampleFromMixture\<close>: the array \<^verbatim>\<open>weights\<close> handed to the
  categorical draw. \<open>pi_arr\<close> is the parameter \<^verbatim>\<open>pi\<close> of the source.
\<close>

definition temperatureWeights :: "jsnum list \<Rightarrow> nat \<Rightarrow> jsnum \<Rightarrow> jsnum list" where
  "temperatureWeights pi_arr numMixtures temperature =
     (if temperature \<noteq> Fin 1 then
        (let scaledPi = map (\<lambda>i. jdiv (js_nth pi_arr i) temperature) [0..<numMixtures];
             maxLogit = Math_max scaledPi;
             exps = map (\<lambda>x. Math_exp (jsub x maxLogit)) scaledPi;
             sumExp = foldl jadd (Fin 0) exps
         in map (\<lambda>w. jdiv w sumExp) exps)
      else map (\<lambda>i. js_nth pi_arr i) [0..<numMixtures])"

text \<open>
  \<^verbatim>\<open>arr.slice(componentIdx * outputSize, (componentIdx + 1) * outputSize)\<close>, the slice
  of the selected component.
\<close>

definition selectedSlice :: "jsnum list \<Rightarrow> int \<Rightarrow> nat \<Rightarrow> jsnum list" where
  "selectedSlice arr componentIdx outputSize =
     js_slice arr (componentIdx * int outputSize) ((componentIdx + 1) * int outputSize)"

text \<open>
  The last loop of \<^verbatim>\<open>sampleFromMixture\<close>: the number of dimensions still to draw and
  the index \<open>i\<close> of the next one.
\<close>

fun gaussian_loop :: "jsnum list \<Rightarrow> jsnum list \<Rightarrow> nat \<Rightarrow> nat \<Rightarrow> rng \<Rightarrow> flatvec \<times> rng" where
  "gaussian_loop selectedMu scaledSigma 0 i rs = ([], rs)"
| "gaussian_loop selectedMu scaledSigma (Suc n) i rs =
     (let (x, rs1) = sampleFromGaussian (js_nth selectedMu i) (js_nth scaledSigma i) rs;
          (rest, rs2) = gaussian_loop selectedMu scaledSigma n (Suc i) rs1
      in (x # rest, rs2))"

text \<open>
  The conditions under which a call ends without a value. \<open>RangeError\<close> is what the
  engine throws on \<^verbatim>\<open>new Array(n)\<close> when \<open>n\<close> is no array length and on a call with
  more arguments than it accepts. \<open>InvalidDistribution\<close> is the condition the
  specification names for malformed mixture parameters.
\<close>

datatype error = TypeError | RangeError | InferenceFailure | InvalidDistribution

text \<open>
  \<^verbatim>\<open>sampleFromMixture(pi, mu, sigma, outputSize, numMixtures, temperature)\<close>, as it runs
  when the engine accepts the two sizes: the function has no \<^verbatim>\<open>throw\<close> of its own, and
  its result is then the returned sample. What the engine throws on sizes beyond its
  limits is in \<open>sampleFromMixture_engine\<close> below.
\<close>

definition sampleFromMixture ::
  "jsnum list \<Rightarrow> jsnum list \<Rightarrow> jsnum list \<Rightarrow> nat \<Rightarrow> nat \<Rightarrow> jsnum \<Rightarrow> rng
     \<Rightarrow> error + flatvec \<times> rng" where
  "sampleFromMixture pi_arr mu sigma outputSize numMixtures temperature rs =
     (let weights = temperatureWeights pi_arr numMixtures temperature;
          (componentIdx, rs1) = sampleFromCategorical weights rs;
          selectedMu = selectedSlice mu componentIdx outputSize;
          selectedSigma = selectedSlice sigma componentIdx outputSize;
          scaledSigma = map (\<lambda>s. jmul s temperature) selectedSigma
      in Inr (gaussian_loop selectedMu scaledSigma outputSize 0 rs1))"

section \<open>The limits of the engine\<close>

text \<open>
  Two things the definitions above leave out decide whether the categorical draw and the
  mixture sampler return: the rounding of the running sum, and the sizes at which the
  engine throws. Both are made explicit here.

  The rounding \<open>rnd\<close> takes the exact value of a finite sum to the number the engine
  stores for it (the nearest double, or an infinity on overflow). It is a parameter;
  \<open>Fin\<close> is the exact arithmetic used above.
\<close>

definition fadd :: "(real \<Rightarrow> jsnum) \<Rightarrow> jsnum \<Rightarrow> jsnum \<Rightarrow> jsnum" where
  "fadd rnd a b = (case jadd a b of Fin x \<Rightarrow> rnd x | PInf \<Rightarrow> PInf | NInf \<Rightarrow> NInf | NaN \<Rightarrow> NaN)"

text \<open>
  A rounding for examples: exact, except that \<open>1/2 + 2^-54\<close> is taken to \<open>1/2\<close>, as the
  rounding of doubles does (a tie between two doubles, resolved to the even one).
\<close>

definition example_rounding :: "real \<Rightarrow> jsnum" where
  "example_rounding x = (if x = 1/2 + 1/2^54 then Fin (1/2) else Fin x)"

text \<open>\<^verbatim>\<open>new Array(n)\<close> throws when \<open>n\<close> exceeds the largest array length, \<open>2^32 - 1\<close>.\<close>

definition MAX_ARRAY_LENGTH :: nat where
  "MAX_ARRAY_LENGTH = 2 ^ 32 - 1"

text \<open>
  The loop of \<^verbatim>\<open>sampleFromCategorical\<close> with \<^verbatim>\<open>cumSum += probs[i]\<close> rounded by \<open>rnd\<close>.
\<close>

fun categorical_loop_rounded ::
  "(real \<Rightarrow> jsnum) \<Rightarrow> real \<Rightarrow> jsnum list \<Rightarrow> nat \<Rightarrow> jsnum \<Rightarrow> nat option" where
  "categorical_loop_rounded rnd r [] i cumSum = None"
| "categorical_loop_rounded rnd r (p # rest) i cumSum =
     (if jlt (Fin r) (fadd rnd cumSum p) then Some i
      else categorical_loop_rounded rnd r rest (Suc i) (fadd rnd cumSum p))"

text \<open>
  \<^verbatim>\<open>sampleFromCategorical(probs)\<close> on an engine that rounds with \<open>rnd\<close> and accepts at
  most \<open>argLimit\<close> arguments in a call. The limit differs between engines. It matters in
  the fallback only, where \<^verbatim>\<open>Math.max(...probs)\<close> passes every entry as an argument.
\<close>

definition sampleFromCategorical_engine ::
  "(real \<Rightarrow> jsnum) \<Rightarrow> nat \<Rightarrow> jsnum list \<Rightarrow> rng \<Rightarrow> error + int \<times> rng" where
  "sampleFromCategorical_engine rnd argLimit probs rs =
     (let (r, rs1) = Math_random rs
      in (case categorical_loop_rounded rnd r probs 0 (Fin 0) of
            Some i \<Rightarrow> Inr (int i, rs1)
          | None \<Rightarrow>
              if argLimit < length probs then Inl RangeError
              else Inr (indexOf probs (Math_max probs), rs1)))"

text \<open>
  \<^verbatim>\<open>sampleFromMixture\<close> on such an engine, in the order of the source:
  \<^verbatim>\<open>new Array(numMixtures)\<close>; with a temperature other than 1,
  \<^verbatim>\<open>Math.max(...scaledPi)\<close> on \<open>numMixtures\<close> arguments; the categorical draw; the two
  slices; \<^verbatim>\<open>new Array(outputSize)\<close>; the Gaussian draws. Weights, slices and draws are
  those of the definitions above.
\<close>

definition sampleFromMixture_engine ::
  "(real \<Rightarrow> jsnum) \<Rightarrow> nat \<Rightarrow> jsnum list \<Rightarrow> jsnum list \<Rightarrow> jsnum list \<Rightarrow> nat \<Rightarrow> nat
     \<Rightarrow> jsnum \<Rightarrow> rng \<Rightarrow> error + flatvec \<times> rng" where
  "sampleFromMixture_engine rnd argLimit pi_arr mu sigma outputSize numMixtures temperature rs =
     (if MAX_ARRAY_LENGTH < numMixtures then Inl RangeError
      else if temperature \<noteq> Fin 1 \<and> argLimit < numMixtures then Inl RangeError
      else
        (case sampleFromCategorical_engine rnd argLimit
                (temperatureWeights pi_arr numMixtures temperature) rs of
           Inl e \<Rightarrow> Inl e
         | Inr (componentIdx, rs1) \<Rightarrow>
             if MAX_ARRAY_LENGTH < outputSize then Inl RangeError
             else
               Inr (gaussian_loop
                      (selectedSlice mu componentIdx outputSize)
                      (map (\<lambda>s. jmul s temperature) (selectedSlice sigma componentIdx outputSize))
                      outputSize 0 rs1)))"

section \<open>The generation loop\<close>

text \<open>
  The mutable variables of the page that the loop reads and writes, and what it hands to
  its surroundings: the poses given to \<^verbatim>\<open>visualizer.drawPose\<close> (latest first), the
  number of \<^verbatim>\<open>setTimeout\<close> callbacks it has scheduled and the number of calls of
  \<^verbatim>\<open>showError\<close>.
\<close>

record gen_state =
  isGenerating :: bool
  animationFrameId :: "nat option"
  currentSequence :: "pose option"
  poseHistory :: "pose list"
  drawn :: "pose list"
  scheduledTimeouts :: nat
  errorsShown :: nat

definition MAX_HISTORY :: nat where
  "MAX_HISTORY = 5"

text \<open>What \<^verbatim>\<open>session.run\<close> resolves to: the data of \<^verbatim>\<open>pi\<close>, \<^verbatim>\<open>mu\<close>, \<^verbatim>\<open>sigma\<close> and \<^verbatim>\<open>mu.dims[1]\<close>.\<close>

record inference_results =
  pi_data :: "jsnum list"
  mu_data :: "jsnum list"
  sigma_data :: "jsnum list"
  mu_dims1 :: nat

text \<open>\<^verbatim>\<open>stopGeneration()\<close>; a pending animation frame is cancelled and its id cleared.\<close>

definition stopGeneration :: "gen_state \<Rightarrow> gen_state" where
  "stopGeneration s = s\<lparr>isGenerating := False, animationFrameId := None\<rparr>"

text \<open>The \<^verbatim>\<open>catch\<close> block of \<^verbatim>\<open>runGenerationStep\<close>.\<close>

definition catch_block :: "gen_state \<Rightarrow> gen_state" where
  "catch_block s = (stopGeneration s)\<lparr>errorsShown := Suc (errorsShown (stopGeneration s))\<rparr>"

text \<open>\<^verbatim>\<open>inputSequence.shift(); inputSequence.push(nextPose)\<close>; \<^verbatim>\<open>shift\<close> leaves an empty array empty.\<close>

definition advanceWindow :: "'a list \<Rightarrow> 'a \<Rightarrow> 'a list" where
  "advanceWindow inputSequence nextPose = tl inputSequence @ [nextPose]"

text \<open>\<^verbatim>\<open>poseHistory.unshift(newPose); if (poseHistory.length > MAX_HISTORY) poseHistory.pop()\<close>\<close>

definition pushHistory :: "pose list \<Rightarrow> pose \<Rightarrow> pose list" where
  "pushHistory history newPose =
     (if MAX_HISTORY < length (newPose # history) then butlast (newPose # history)
      else newPose # history)"

text \<open>
  \<^verbatim>\<open>runGenerationStep(inputSequence)\<close> up to its \<^verbatim>\<open>await\<close>. The result says whether the
  step is now suspended on \<^verbatim>\<open>session.run\<close>. Reading \<^verbatim>\<open>inputSequence[0].length\<close> of an
  empty window throws inside the \<^verbatim>\<open>try\<close>. Building the tensor and running the session
  belong to the inference library: a failure of either is the failed result of the
  awaited call below, which ends in the same \<^verbatim>\<open>catch\<close> block.
\<close>

definition runGenerationStep_start :: "gen_state \<Rightarrow> flatvec list \<Rightarrow> gen_state \<times> bool" where
  "runGenerationStep_start s inputSequence =
     (if \<not> isGenerating s then (s, False)
      else if inputSequence = [] then (catch_block s, False)
      else (s, True))"

text \<open>
  \<^verbatim>\<open>runGenerationStep\<close> from the resumption of its \<^verbatim>\<open>await\<close> to its end, on the state
  as it is at the resumption. \<open>awaited\<close> is the outcome of \<^verbatim>\<open>session.run\<close>,
  \<open>temperature\<close> the value read from the slider. The window is the array the caller
  passed; it is returned as the step leaves it.
\<close>

definition runGenerationStep_resume ::
  "gen_state \<Rightarrow> flatvec list \<Rightarrow> error + inference_results \<Rightarrow> jsnum \<Rightarrow> rng
     \<Rightarrow> gen_state \<times> flatvec list \<times> rng" where
  "runGenerationStep_resume s inputSequence awaited temperature rs =
     (case awaited of
        Inl e \<Rightarrow> (catch_block s, inputSequence, rs)
      | Inr results \<Rightarrow>
          (case inputSequence of
             [] \<Rightarrow> (catch_block s, inputSequence, rs)
           | row0 # others \<Rightarrow>
               (case sampleFromMixture (pi_data results) (mu_data results)
                       (sigma_data results) (length row0) (mu_dims1 results) temperature rs of
                  Inl e \<Rightarrow> (catch_block s, inputSequence, rs)
                | Inr (nextPose, rs1) \<Rightarrow>
                    (let newPose = reshapeKeypoints nextPose;
                         history1 = pushHistory (poseHistory s) newPose;
                         smoothedPose = smoothPose history1 newPose
                     in (s\<lparr>poseHistory := history1,
                            currentSequence := Some smoothedPose,
                            drawn := smoothedPose # drawn s,
                            scheduledTimeouts := Suc (scheduledTimeouts s)\<rparr>,
                         advanceWindow inputSequence nextPose, rs1)))))"

section \<open>Properties of the smoothing\<close>

lemma history_weight_value: "history_weight j = Fin (0.6 * 0.5 ^ j)"
  by (simp add: history_weight_def Math_pow_def)

lemmas smooth_eval = smoothPose_def smoothKeypoint_def strict_eq_def skipped_def
  history_weight_value blend_def jsub_def spec_smoothKeypoint_def

text \<open>
  The inner loop seen from the far end of the history: the entry visited last is the
  oldest one, and its update is applied on top of the result for all more recent ones.
\<close>

lemma smooth_loop_snoc:
  "smooth_loop (history @ [oldest]) j i acc =
     (if skipped oldest i then smooth_loop history j i acc
      else (blend (fst (smooth_loop history j i acc)) (fst (oldest ! i))
              (history_weight (j + length history)),
            blend (snd (smooth_loop history j i acc)) (snd (oldest ! i))
              (history_weight (j + length history))))"
proof (induction history j i acc rule: smooth_loop.induct)
  case (1 j i acc)
  then show ?case by (cases acc) (simp add: Let_def)
next
  case (2 historicalPose rest j i smoothedX smoothedY)
  then show ?case by (simp add: Let_def)
qed

text \<open>With an empty history the pose is returned as it is; that agrees with the loop.\<close>

lemma smoothPose_nth:
  assumes "i < length newPose"
  shows "smoothPose history newPose ! i = smoothKeypoint history i (newPose ! i)"
proof (cases "history = []")
  case True
  then show ?thesis
    by (cases "newPose ! i") (auto simp: smoothPose_def smoothKeypoint_def strict_eq_def)
next
  case False
  with assms show ?thesis by (simp add: smoothPose_def)
qed

text \<open>
  C8. Whatever the pose and whatever the history, a keypoint of the incoming pose that is
  the missing-sentinel \<open>(0, 0)\<close> is \<open>(0, 0)\<close> in the smoothed pose, and the smoothed pose
  has as many keypoints as the incoming one.
\<close>

theorem smoothPose_keeps_missing:
  assumes "i < length newPose" and "newPose ! i = (Fin 0, Fin 0)"
  shows "length (smoothPose history newPose) = length newPose \<and>
         smoothPose history newPose ! i = (Fin 0, Fin 0)"
  using assms by (simp add: smoothPose_def smoothKeypoint_def strict_eq_def)

theorem smoothPose_keeps_missing_witness:
  "smoothPose [[(Fin 3, Fin 4), (Fin 5, Fin 6)]] [(Fin 1, Fin 2), (Fin 0, Fin 0)] ! 1
     = (Fin 0, Fin 0)"
  using smoothPose_keeps_missing
    [of 1 "[(Fin 1, Fin 2), (Fin 0, Fin 0)]" "[[(Fin 3, Fin 4), (Fin 5, Fin 6)]]"]
  by simp

text \<open>
  C4, as the specification words it, fails: the update is not applied from the oldest
  history entry to the most recent one. With the history \<open>(1, 1)\<close>, \<open>(10, 10)\<close>,
  \<open>(20, 20)\<close> (most recent first) and the new keypoint \<open>(1, 1)\<close>, \<^verbatim>\<open>smoothPose\<close> gives
  \<open>6.145\<close>, where the order of the specification gives \<open>2.878\<close>.
\<close>

theorem smoothPose_order_counterexample:
  "smoothPose [[(Fin 1, Fin 1)], [(Fin 10, Fin 10)], [(Fin 20, Fin 20)]] [(Fin 1, Fin 1)] ! 0
     = (Fin 6.145, Fin 6.145) \<and>
   spec_smoothKeypoint [[(Fin 1, Fin 1)], [(Fin 10, Fin 10)], [(Fin 20, Fin 20)]] 0 (Fin 1, Fin 1)
     = (Fin 2.878, Fin 2.878) \<and>
   smoothPose [[(Fin 1, Fin 1)], [(Fin 10, Fin 10)], [(Fin 20, Fin 20)]] [(Fin 1, Fin 1)] ! 0
     \<noteq> spec_smoothKeypoint [[(Fin 1, Fin 1)], [(Fin 10, Fin 10)], [(Fin 20, Fin 20)]] 0
          (Fin 1, Fin 1)"
  by (simp add: smooth_eval)

text \<open>
  C4, amended. For a keypoint of the new pose that is not \<open>(0, 0)\<close>, smoothing starts
  from the new value and applies \<open>value * (1 - weight) + historical * weight\<close> with
  \<open>weight = 0.6 * 0.5 ^ j\<close> for the history entry of index \<open>j\<close> (\<open>j = 0\<close> the most
  recent), skipping the entries in which the keypoint is absent, in the order from the
  most recent entry to the oldest: the update of the oldest entry is applied last, to the
  result of smoothing against all more recent entries. On finite numbers \<open>blend\<close> is
  the update as written.
\<close>

theorem smoothPose_most_recent_first:
  assumes "i < length newPose" and "newPose ! i \<noteq> (Fin 0, Fin 0)"
  shows "smoothPose [] newPose ! i = newPose ! i \<and>
         smoothPose (history @ [oldest]) newPose ! i =
           (if skipped oldest i then smoothPose history newPose ! i
            else (blend (fst (smoothPose history newPose ! i)) (fst (oldest ! i))
                    (Fin (0.6 * 0.5 ^ length history)),
                  blend (snd (smoothPose history newPose ! i)) (snd (oldest ! i))
                    (Fin (0.6 * 0.5 ^ length history)))) \<and>
         blend (Fin v) (Fin h) (Fin w) = Fin (v * (1 - w) + h * w)"
proof -
  have nm: "\<not> (strict_eq (fst (newPose ! i)) (Fin 0) \<and> strict_eq (snd (newPose ! i)) (Fin 0))"
    using assms(2) by (cases "newPose ! i") (auto simp: strict_eq_def)
  have k: "smoothKeypoint h i (newPose ! i) = smooth_loop h 0 i (newPose ! i)" for h
    using nm by (auto simp add: smoothKeypoint_def)
  show ?thesis
    using assms(1)
    by (simp add: smoothPose_nth k smooth_loop_snoc history_weight_value)
       (simp add: blend_def jsub_def)
qed

theorem smoothPose_most_recent_first_witness:
  "smoothPose ([[(Fin 1, Fin 1)]] @ [[(Fin 10, Fin 10)]]) [(Fin 1, Fin 1)] ! 0
     = (Fin 3.7, Fin 3.7)"
  using smoothPose_most_recent_first
    [of 0 "[(Fin 1, Fin 1)]" "[[(Fin 1, Fin 1)]]" "[(Fin 10, Fin 10)]"]
  by (simp add: smooth_eval)

section \<open>Properties of the sampler\<close>

lemma Math_random_const: "Math_random (const_rng u) = (u, const_rng u)"
  by (simp add: Math_random_def const_rng_def)

lemma sampleFromGaussian_zero_stddev:
  assumes "0 < rs 0" and "rs 0 \<le> 1"
  shows "fst (sampleFromGaussian (Fin m) (Fin 0) rs) = Fin m"
proof -
  have "ln (rs 0) \<le> 0" using assms by simp
  then have "\<not> (- 2 * ln (rs 0) < 0)" by (simp add: mult_le_0_iff)
  with assms show ?thesis
    by (simp add: sampleFromGaussian_def Math_random_def Let_def)
qed

lemma sampleFromGaussian_rng:
  "snd (sampleFromGaussian mean stddev rs) = (\<lambda>n. rs (Suc (Suc n)))"
  by (simp add: sampleFromGaussian_def Math_random_def Let_def)

lemma sampleFromGaussian_const_rng:
  "snd (sampleFromGaussian mean stddev (const_rng u)) = const_rng u"
  by (simp add: sampleFromGaussian_rng) (simp add: const_rng_def)

lemma gaussian_loop_Suc:
  "gaussian_loop selectedMu scaledSigma (Suc n) i rs =
     (fst (sampleFromGaussian (js_nth selectedMu i) (js_nth scaledSigma i) rs) #
      fst (gaussian_loop selectedMu scaledSigma n (Suc i)
             (snd (sampleFromGaussian (js_nth selectedMu i) (js_nth scaledSigma i) rs))),
      snd (gaussian_loop selectedMu scaledSigma n (Suc i)
             (snd (sampleFromGaussian (js_nth selectedMu i) (js_nth scaledSigma i) rs))))"
  by (simp add: Let_def case_prod_beta)

lemma length_gaussian_loop:
  "length (fst (gaussian_loop selectedMu scaledSigma n i rs)) = n"
  by (induction n arbitrary: i rs) (simp_all add: gaussian_loop_Suc del: gaussian_loop.simps(2))

lemma sampleFromGaussian_NaN: "fst (sampleFromGaussian NaN stddev rs) = NaN"
  by (simp add: sampleFromGaussian_def Let_def case_prod_beta)


lemma sampleFromMixture_returns:
  "\<exists>sample rs1. sampleFromMixture pi_arr mu sigma outputSize numMixtures temperature rs
      = Inr (sample, rs1) \<and> length sample = outputSize"
proof -
  obtain componentIdx rs0 where c:
    "sampleFromCategorical (temperatureWeights pi_arr numMixtures temperature) rs = (componentIdx, rs0)"
    by (cases "sampleFromCategorical (temperatureWeights pi_arr numMixtures temperature) rs")
  let ?g = "gaussian_loop (selectedSlice mu componentIdx outputSize)
     (map (\<lambda>s. jmul s temperature) (selectedSlice sigma componentIdx outputSize)) outputSize 0 rs0"
  have "sampleFromMixture pi_arr mu sigma outputSize numMixtures temperature rs = Inr (fst ?g, snd ?g)"
    by (simp add: sampleFromMixture_def Let_def c)
  moreover have "length (fst ?g) = outputSize" by (rule length_gaussian_loop)
  ultimately show ?thesis by blast
qed

lemma gaussian_loop_empty_fst:
  "fst (gaussian_loop [] [] n i rs) = replicate n NaN"
  by (induction n arbitrary: i rs)
     (simp_all add: gaussian_loop_Suc js_nth_def sampleFromGaussian_NaN
        del: gaussian_loop.simps(2))

lemma js_slice_zero_components: "selectedSlice arr (- 1) outputSize = []"
  by (simp add: selectedSlice_def js_slice_def Let_def)

lemma temperatureWeights_zero: "temperatureWeights pi_arr 0 temperature = []"
  by (simp add: temperatureWeights_def Let_def)



lemma jmax_Fin: "jmax (Fin a) (Fin b) = Fin (max b a)"
  by (simp add: jmax_def max_def)

lemma jmax_NInf_Fin: "jmax NInf (Fin b) = Fin b"
  by (simp add: jmax_def)

lemma fold_jmax_Fin:
  "fold (\<lambda>x acc. jmax acc x) (map Fin xs) (Fin a) = Fin (fold max xs a)"
  by (induction xs arbitrary: a) (simp_all add: jmax_Fin)

lemma Math_max_Fin:
  assumes "xs \<noteq> []"
  shows "Math_max (map Fin xs) = Fin (Max (set xs))"
proof -
  obtain x rest where xs: "xs = x # rest" using assms by (cases xs) auto
  have "Math_max (map Fin xs) = Fin (fold max rest x)"
    by (simp add: xs Math_max_def jmax_NInf_Fin fold_jmax_Fin)
  also have "fold max rest x = Max (set xs)"
    unfolding xs by (rule Max.set_eq_fold [symmetric])
  finally show ?thesis .
qed










text \<open>
  With exact rounding and sizes within the limits of the engine, the functions of this
  section are the ones defined first.
\<close>

lemma fadd_Fin: "fadd Fin a b = jadd a b"
  by (cases "jadd a b") (simp_all add: fadd_def)

lemma categorical_loop_rounded_Fin:
  "categorical_loop_rounded Fin r probs i cumSum = categorical_loop r probs i cumSum"
  by (induction probs arbitrary: i cumSum) (simp_all add: fadd_Fin)

lemma sampleFromCategorical_engine_exact:
  assumes "length probs \<le> argLimit"
  shows "sampleFromCategorical_engine Fin argLimit probs rs = Inr (sampleFromCategorical probs rs)"
  using assms
  by (simp add: sampleFromCategorical_engine_def sampleFromCategorical_def
      categorical_loop_rounded_Fin case_prod_beta split: option.splits)

lemma length_temperatureWeights:
  "length (temperatureWeights pi_arr numMixtures temperature) = numMixtures"
  by (simp add: temperatureWeights_def Let_def)

lemma sampleFromMixture_engine_exact:
  assumes "numMixtures \<le> MAX_ARRAY_LENGTH" and "numMixtures \<le> argLimit"
    and "outputSize \<le> MAX_ARRAY_LENGTH"
  shows "sampleFromMixture_engine Fin argLimit pi_arr mu sigma outputSize numMixtures temperature rs
           = sampleFromMixture pi_arr mu sigma outputSize numMixtures temperature rs"
  using assms
  by (simp add: sampleFromMixture_engine_def sampleFromMixture_def
      sampleFromCategorical_engine_exact length_temperatureWeights case_prod_beta Let_def)

lemma MAX_ARRAY_LENGTH_value: "MAX_ARRAY_LENGTH = 4294967295"
  by (simp add: MAX_ARRAY_LENGTH_def)

lemma sampleFromCategorical_engine_cases:
  "sampleFromCategorical_engine rnd argLimit probs rs = Inl RangeError \<and> argLimit < length probs \<or>
   (\<exists>componentIdx. sampleFromCategorical_engine rnd argLimit probs rs
       = Inr (componentIdx, snd (Math_random rs)))"
  by (simp add: sampleFromCategorical_engine_def case_prod_beta split: option.splits)

text \<open>
  C2, as the specification words it, fails: \<^verbatim>\<open>sampleFromMixture\<close> does not fail when
  there is no mixture component, when the output has no dimension, or when a standard
  deviation is negative. In each of the three cases it returns a sample (here on an
  engine with exact rounding that accepts 65536 arguments).
\<close>

theorem sampleFromMixture_engine_no_validation_counterexample:
  "sampleFromMixture_engine Fin 65536 [] [] [] 2 0 (Fin 1) (const_rng (1/2))
     = Inr ([NaN, NaN], const_rng (1/2)) \<and>
   sampleFromMixture_engine Fin 65536 [Fin 1] [] [] 0 1 (Fin 1) (const_rng (1/2))
     = Inr ([], const_rng (1/2)) \<and>
   \<not> isl (sampleFromMixture_engine Fin 65536 [Fin 1] [Fin 3] [Fin (- 1)] 1 1 (Fin 1)
            (const_rng (1/2)))"
  by (simp add: sampleFromMixture_engine_def MAX_ARRAY_LENGTH_value sampleFromCategorical_engine_def
      fadd_def temperatureWeights_def selectedSlice_def js_slice_def js_nth_def indexOf_def
      Math_max_def jmax_def Math_random_const strict_eq_def numeral_2_eq_2
      sampleFromGaussian_def Let_def)


lemma sampleFromMixture_engine_result:
  "sampleFromMixture_engine rnd argLimit pi_arr mu sigma outputSize numMixtures temperature rs
     = Inl RangeError \<and>
   (MAX_ARRAY_LENGTH < numMixtures \<or> argLimit < numMixtures \<or> MAX_ARRAY_LENGTH < outputSize) \<or>
   (\<exists>sample rs1.
      sampleFromMixture_engine rnd argLimit pi_arr mu sigma outputSize numMixtures temperature rs
        = Inr (sample, rs1) \<and> length sample = outputSize)"
proof -
  let ?w = "temperatureWeights pi_arr numMixtures temperature"
  let ?c = "sampleFromCategorical_engine rnd argLimit ?w rs"
  let ?E = "sampleFromMixture_engine rnd argLimit pi_arr mu sigma outputSize numMixtures
              temperature rs"
  have lw: "length ?w = numMixtures" by (rule length_temperatureWeights)
  show ?thesis
  proof (cases "MAX_ARRAY_LENGTH < numMixtures")
    case True
    then show ?thesis by (simp add: sampleFromMixture_engine_def)
  next
    case nA: False
    show ?thesis
    proof (cases "temperature \<noteq> Fin 1 \<and> argLimit < numMixtures")
      case True
      then have "?E = Inl RangeError" using nA by (simp add: sampleFromMixture_engine_def)
      with True show ?thesis by blast
    next
      case nB: False
      have E: "?E = (case ?c of
                 Inl e \<Rightarrow> Inl e
               | Inr (componentIdx, rs1) \<Rightarrow>
                   if MAX_ARRAY_LENGTH < outputSize then Inl RangeError
                   else Inr (gaussian_loop (selectedSlice mu componentIdx outputSize)
                          (map (\<lambda>s. jmul s temperature)
                             (selectedSlice sigma componentIdx outputSize)) outputSize 0 rs1))"
        unfolding sampleFromMixture_engine_def using nA nB by (simp only: if_False)
      from sampleFromCategorical_engine_cases [of rnd argLimit ?w rs]
      show ?thesis
      proof (elim disjE conjE exE)
        assume "?c = Inl RangeError" and "argLimit < length ?w"
        then show ?thesis using E lw by simp
      next
        fix componentIdx
        assume c: "?c = Inr (componentIdx, snd (Math_random rs))"
        let ?g = "gaussian_loop (selectedSlice mu componentIdx outputSize)
                    (map (\<lambda>s. jmul s temperature) (selectedSlice sigma componentIdx outputSize))
                    outputSize 0 (snd (Math_random rs))"
        show ?thesis
        proof (cases "MAX_ARRAY_LENGTH < outputSize")
          case True
          then have "?E = Inl RangeError" using E c by simp
          with True show ?thesis by blast
        next
          case False
          then have "?E = Inr (fst ?g, snd ?g)" using E c by simp
          moreover have "length (fst ?g) = outputSize" by (rule length_gaussian_loop)
          ultimately show ?thesis by blast
        qed
      qed
    qed
  qed
qed


lemma sampleFromMixture_engine_too_many_components:
  "sampleFromMixture_engine rnd argLimit pi_arr mu sigma outputSize 4294967296 temperature rs
     = Inl RangeError"
  by (simp add: sampleFromMixture_engine_def MAX_ARRAY_LENGTH_value)

text \<open>
  C2, amended. \<^verbatim>\<open>sampleFromMixture\<close> validates nothing and never fails with
  \<open>InvalidDistribution\<close>. Whenever its two sizes are within the limits of the engine
  (both array lengths, and the number of components no more than the arguments a call
  accepts) it returns a vector of length \<open>outputSize\<close>, also with no component, no
  dimension or a negative standard deviation. Its only failure is the \<open>RangeError\<close> of
  the engine, and then one of the sizes is beyond these limits.
\<close>

theorem sampleFromMixture_engine_fails_on_sizes_only:
  "sampleFromMixture_engine rnd argLimit pi_arr mu sigma outputSize numMixtures temperature rs
     \<noteq> Inl InvalidDistribution \<and>
   (numMixtures \<le> MAX_ARRAY_LENGTH \<and> numMixtures \<le> argLimit \<and> outputSize \<le> MAX_ARRAY_LENGTH
      \<longrightarrow> (\<exists>sample rs1.
             sampleFromMixture_engine rnd argLimit pi_arr mu sigma outputSize numMixtures
               temperature rs = Inr (sample, rs1) \<and>
             length sample = outputSize)) \<and>
   (isl (sampleFromMixture_engine rnd argLimit pi_arr mu sigma outputSize numMixtures
           temperature rs)
      \<longrightarrow> sampleFromMixture_engine rnd argLimit pi_arr mu sigma outputSize numMixtures
             temperature rs = Inl RangeError \<and>
           (MAX_ARRAY_LENGTH < numMixtures \<or> argLimit < numMixtures \<or>
            MAX_ARRAY_LENGTH < outputSize))"
  using sampleFromMixture_engine_result
    [of rnd argLimit pi_arr mu sigma outputSize numMixtures temperature rs]
  by (elim disjE conjE exE) (simp_all add: not_less [symmetric])

theorem sampleFromMixture_engine_fails_on_sizes_only_witness:
  "(\<exists>sample rs1.
      sampleFromMixture_engine Fin 65536 [Fin 1] [Fin 3] [Fin (- 1)] 1 1 (Fin 1) (const_rng (1/2))
        = Inr (sample, rs1) \<and> length sample = 1) \<and>
   sampleFromMixture_engine Fin 65536 [Fin 1] [Fin 3] [Fin (- 1)] 1 1 (Fin 1) (const_rng (1/2))
     \<noteq> Inl InvalidDistribution"
  using sampleFromMixture_engine_fails_on_sizes_only
      [of Fin 65536 "[Fin 1]" "[Fin 3]" "[Fin (- 1)]" 1 1 "Fin 1" "const_rng (1/2)"]
  by (simp add: MAX_ARRAY_LENGTH_value)

text \<open>
  C10. On the empty array \<^verbatim>\<open>sampleFromCategorical\<close> returns \<open>-1\<close> and raises nothing.
  So \<^verbatim>\<open>sampleFromMixture\<close> with zero components goes on: the weights are empty, the
  index is \<open>-1\<close>, the slices of the means and of the standard deviations are empty, and
  the call returns \<open>outputSize\<close> values read from these empty slices, each \<open>NaN\<close>.
\<close>

theorem zero_components_index_minus_one:
  "fst (sampleFromCategorical [] rs) = - 1 \<and>
   temperatureWeights pi_arr 0 temperature = [] \<and>
   selectedSlice mu (- 1) outputSize = [] \<and>
   selectedSlice sigma (- 1) outputSize = [] \<and>
   (\<exists>rs1. sampleFromMixture pi_arr mu sigma outputSize 0 temperature rs
            = Inr (replicate outputSize NaN, rs1))"
proof -
  let ?rs0 = "snd (Math_random rs)"
  have cat: "sampleFromCategorical [] rs = (- 1, ?rs0)"
    by (simp add: sampleFromCategorical_def indexOf_def case_prod_beta)
  have "sampleFromMixture pi_arr mu sigma outputSize 0 temperature rs
          = Inr (gaussian_loop [] [] outputSize 0 ?rs0)"
    by (simp add: sampleFromMixture_def temperatureWeights_zero cat js_slice_zero_components)
  then have "sampleFromMixture pi_arr mu sigma outputSize 0 temperature rs
          = Inr (replicate outputSize NaN, snd (gaussian_loop [] [] outputSize 0 ?rs0))"
    using gaussian_loop_empty_fst [of outputSize 0 ?rs0]
    by (metis prod.collapse)
  then show ?thesis
    by (simp add: cat temperatureWeights_zero js_slice_zero_components)
qed

theorem zero_components_index_minus_one_witness:
  "fst (sampleFromCategorical [] (const_rng (1/2))) = - 1 \<and>
   (\<exists>rs1. sampleFromMixture [] [Fin 3] [Fin 4] 2 0 (Fin 2) (const_rng (1/2))
            = Inr ([NaN, NaN], rs1))"
  using zero_components_index_minus_one
    [of "const_rng (1/2)" "[]" "Fin 2" "[Fin 3]" 2 "[Fin 4]"]
  by (simp add: numeral_2_eq_2)

text \<open>
  C5 does not hold of the code: \<^verbatim>\<open>sampleFromGaussian\<close> passes the draw \<open>u1\<close> to the
  logarithm as it comes, and \<^verbatim>\<open>Math.random()\<close> may return 0. On that draw the logarithm
  of zero is evaluated and the sample is infinite, or \<open>NaN\<close> when the standard
  deviation is 0.
\<close>

theorem log_of_zero_evaluated:
  "fst (Math_random (const_rng 0)) = 0 \<and>
   Math_log (Fin (fst (Math_random (const_rng 0)))) = NInf \<and>
   sampleFromGaussian (Fin 0) (Fin 1) (const_rng 0) = (PInf, const_rng 0) \<and>
   sampleFromGaussian (Fin 0) (Fin 0) (const_rng 0) = (NaN, const_rng 0)"
  by (simp add: sampleFromGaussian_def Math_random_const signed_inf_def)


lemma categorical_loop_rounded_Some:
  assumes "categorical_loop_rounded rnd r probs i c = Some n"
  shows "\<exists>k<length probs. n = i + k \<and>
           jlt (Fin r) (foldl (fadd rnd) c (take (Suc k) probs)) \<and>
           (\<forall>k'<k. \<not> jlt (Fin r) (foldl (fadd rnd) c (take (Suc k') probs)))"
  using assms
proof (induction probs arbitrary: i c)
  case Nil
  then show ?case by simp
next
  case (Cons p probs)
  show ?case
  proof (cases "jlt (Fin r) (fadd rnd c p)")
    case True
    with Cons.prems have "n = i" by simp
    with True show ?thesis by (intro exI [of _ 0]) simp
  next
    case False
    with Cons.prems have "categorical_loop_rounded rnd r probs (Suc i) (fadd rnd c p) = Some n"
      by simp
    from Cons.IH [OF this] obtain k where k: "k < length probs" "n = Suc i + k"
      "jlt (Fin r) (foldl (fadd rnd) (fadd rnd c p) (take (Suc k) probs))"
      "\<forall>k'<k. \<not> jlt (Fin r) (foldl (fadd rnd) (fadd rnd c p) (take (Suc k') probs))"
      by blast
    have "\<forall>k'<Suc k. \<not> jlt (Fin r) (foldl (fadd rnd) c (take (Suc k') (p # probs)))"
    proof (intro allI impI)
      fix k' assume "k' < Suc k"
      then show "\<not> jlt (Fin r) (foldl (fadd rnd) c (take (Suc k') (p # probs)))"
        using False k(4) by (cases k') simp_all
    qed
    with k(1-3) show ?thesis
      by (intro exI [of _ "Suc k"]) simp
  qed
qed

lemma categorical_loop_rounded_None:
  assumes "categorical_loop_rounded rnd r probs i c = None"
  shows "\<forall>k<length probs. \<not> jlt (Fin r) (foldl (fadd rnd) c (take (Suc k) probs))"
  using assms
proof (induction probs arbitrary: i c)
  case Nil
  then show ?case by simp
next
  case (Cons p probs)
  from Cons.prems have np: "\<not> jlt (Fin r) (fadd rnd c p)"
    by (auto split: if_splits)
  with Cons.prems have "categorical_loop_rounded rnd r probs (Suc i) (fadd rnd c p) = None"
    by simp
  from Cons.IH [OF this]
  have ih: "\<forall>k<length probs. \<not> jlt (Fin r) (foldl (fadd rnd) (fadd rnd c p) (take (Suc k) probs))" .
  show ?case
  proof (intro allI impI)
    fix k assume "k < length (p # probs)"
    then show "\<not> jlt (Fin r) (foldl (fadd rnd) c (take (Suc k) (p # probs)))"
      using np ih by (cases k) simp_all
  qed
qed

lemma indexOf_from_Fin:
  assumes "m \<in> set ps"
  shows "\<exists>k<length ps. indexOf_from (map Fin ps) (Fin m) i = int (i + k) \<and> ps ! k = m \<and>
           (\<forall>k'<k. ps ! k' \<noteq> m)"
  using assms
proof (induction ps arbitrary: i)
  case Nil
  then show ?case by simp
next
  case (Cons p ps)
  show ?case
  proof (cases "p = m")
    case True
    then show ?thesis by (intro exI [of _ 0]) (simp add: strict_eq_def)
  next
    case False
    with Cons.prems have "m \<in> set ps" by simp
    from Cons.IH [OF this, of "Suc i"] obtain k where k: "k < length ps"
      "indexOf_from (map Fin ps) (Fin m) (Suc i) = int (Suc i + k)" "ps ! k = m"
      "\<forall>k'<k. ps ! k' \<noteq> m" by blast
    have "\<forall>k'<Suc k. (p # ps) ! k' \<noteq> m"
    proof (intro allI impI)
      fix k' assume "k' < Suc k"
      then show "(p # ps) ! k' \<noteq> m" using False k(4) by (cases k') simp_all
    qed
    with k(1-3) False show ?thesis
      by (intro exI [of _ "Suc k"]) (simp add: strict_eq_def)
  qed
qed

lemma categorical_loop_rounded_zeros:
  assumes "0 \<le> r"
  shows "categorical_loop_rounded Fin r (replicate n (Fin 0)) i (Fin 0) = None"
  using assms by (induction n arbitrary: i) (simp_all add: fadd_def)

text \<open>
  C6, as the specification words it, fails: the draw can throw. On 130000 entries, none of
  whose cumulative sums exceeds the draw, the fallback passes every entry to
  \<^verbatim>\<open>Math.max\<close> as an argument, and an engine that accepts 65536 arguments throws
  \<open>RangeError\<close>.
\<close>

theorem sampleFromCategorical_throws_counterexample:
  "sampleFromCategorical_engine Fin 65536 (replicate 130000 (Fin 0)) (const_rng (1/2))
     = Inl RangeError"
  by (simp add: sampleFromCategorical_engine_def Math_random_const
      categorical_loop_rounded_zeros)


text \<open>
  C6, amended. On a non-empty vector of finite probabilities with no more entries than
  the engine accepts as arguments of a call, the categorical draw returns the first
  index whose cumulative sum, as the engine accumulates and rounds it, exceeds the draw
  \<open>u\<close>; when no index does, it returns the first index of the largest probability. In
  both cases the result is an index of the vector and nothing is thrown. The statement
  holds for every rounding; the witness takes the one under which \<open>1/2 + 2^-54\<close> is
  \<open>1/2\<close>, where the draw \<open>1/2\<close> on \<open>1/2, 2^-54, 1/2\<close> gives index 2 and on
  \<open>1/2, 2^-54, 2^-54\<close> falls back to index 0.
\<close>

theorem sampleFromCategorical_engine_valid_index:
  assumes "ps \<noteq> []" and "length ps \<le> argLimit"
  shows "\<exists>k<length ps.
           sampleFromCategorical_engine rnd argLimit (map Fin ps) rs
             = Inr (int k, snd (Math_random rs)) \<and>
           ((jlt (Fin (rs 0)) (foldl (fadd rnd) (Fin 0) (take (Suc k) (map Fin ps))) \<and>
             (\<forall>k'<k. \<not> jlt (Fin (rs 0))
                          (foldl (fadd rnd) (Fin 0) (take (Suc k') (map Fin ps))))) \<or>
            ((\<forall>k'<length ps. \<not> jlt (Fin (rs 0))
                                (foldl (fadd rnd) (Fin 0) (take (Suc k') (map Fin ps)))) \<and>
             ps ! k = Max (set ps) \<and> (\<forall>k'<k. ps ! k' \<noteq> Max (set ps))))"
proof (cases "categorical_loop_rounded rnd (rs 0) (map Fin ps) 0 (Fin 0)")
  case None
  have "Max (set ps) \<in> set ps" using assms(1) by simp
  from indexOf_from_Fin [OF this, of 0] obtain k where k: "k < length ps"
    "indexOf_from (map Fin ps) (Fin (Max (set ps))) 0 = int k" "ps ! k = Max (set ps)"
    "\<forall>k'<k. ps ! k' \<noteq> Max (set ps)" by auto
  have "sampleFromCategorical_engine rnd argLimit (map Fin ps) rs
          = Inr (int k, snd (Math_random rs))"
    using assms by (simp add: sampleFromCategorical_engine_def Math_random_def None indexOf_def
        Math_max_Fin k(2))
  moreover have "\<forall>k'<length ps. \<not> jlt (Fin (rs 0))
                                (foldl (fadd rnd) (Fin 0) (take (Suc k') (map Fin ps)))"
    using categorical_loop_rounded_None [OF None] by simp
  ultimately show ?thesis using k(1,3,4) by blast
next
  case (Some n)
  from categorical_loop_rounded_Some [OF Some] obtain k where k: "k < length ps" "n = k"
    "jlt (Fin (rs 0)) (foldl (fadd rnd) (Fin 0) (take (Suc k) (map Fin ps)))"
    "\<forall>k'<k. \<not> jlt (Fin (rs 0)) (foldl (fadd rnd) (Fin 0) (take (Suc k') (map Fin ps)))"
    by auto
  have "sampleFromCategorical_engine rnd argLimit (map Fin ps) rs
          = Inr (int k, snd (Math_random rs))"
    by (simp add: sampleFromCategorical_engine_def Math_random_def Some k(2))
  with k show ?thesis by blast
qed

lemmas categorical_eval = sampleFromCategorical_engine_def Math_random_const indexOf_def
  Math_max_def jmax_def strict_eq_def fadd_def example_rounding_def

theorem sampleFromCategorical_engine_valid_index_witness:
  "sampleFromCategorical_engine example_rounding 65536 (map Fin [1/2, 1/2^54, 1/2])
     (const_rng (1/2)) = Inr (2, const_rng (1/2)) \<and>
   sampleFromCategorical_engine example_rounding 65536 (map Fin [1/2, 1/2^54, 1/2^54])
     (const_rng (1/2)) = Inr (0, const_rng (1/2)) \<and>
   sampleFromCategorical_engine Fin 65536 (map Fin [1/2, 1/2^54, 1/2])
     (const_rng (1/2)) = Inr (1, const_rng (1/2))"
  using sampleFromCategorical_engine_valid_index
      [of "[1/2, 1/2^54, 1/2]" 65536 example_rounding "const_rng (1/2)"]
    sampleFromCategorical_engine_valid_index
      [of "[1/2, 1/2^54, 1/2^54]" 65536 example_rounding "const_rng (1/2)"]
  by (simp add: categorical_eval)

section \<open>Properties of the generation loop\<close>

lemma sampleFromGaussian_zero_stddev_const:
  assumes "0 < u" and "u \<le> 1"
  shows "sampleFromGaussian (Fin m) (Fin 0) (const_rng u) = (Fin m, const_rng u)"
  using sampleFromGaussian_zero_stddev [of "const_rng u" m] assms
    sampleFromGaussian_const_rng [of "Fin m" "Fin 0" u]
  by (simp add: const_rng_def prod_eq_iff)

lemma length_advanceWindow:
  "inputSequence \<noteq> [] \<Longrightarrow> length (advanceWindow inputSequence nextPose) = length inputSequence"
  by (simp add: advanceWindow_def)

lemma foldl_advanceWindow:
  assumes "window \<noteq> []"
  shows "foldl advanceWindow window vs = drop (length vs) (window @ vs)"
  using assms
proof (induction vs arbitrary: window)
  case Nil
  then show ?case by simp
next
  case (Cons v vs)
  have "foldl advanceWindow window (v # vs) = foldl advanceWindow (tl window @ [v]) vs"
    by (simp add: advanceWindow_def)
  also have "\<dots> = drop (length vs) ((tl window @ [v]) @ vs)"
    by (rule Cons.IH) simp
  also have "\<dots> = drop (length (v # vs)) (window @ v # vs)"
    using Cons.prems by (cases window) simp_all
  finally show ?case .
qed

lemma pushHistory_take:
  assumes "length history \<le> MAX_HISTORY"
  shows "pushHistory history newPose = take MAX_HISTORY (newPose # history)"
proof (cases "length history = MAX_HISTORY")
  case True
  then show ?thesis by (simp add: pushHistory_def butlast_conv_take)
next
  case False
  with assms have "length history < MAX_HISTORY" by simp
  then show ?thesis by (simp add: pushHistory_def)
qed

lemma sample_exists:
  "\<exists>nextPose rs1. sampleFromMixture (pi_data results) (mu_data results) (sigma_data results)
      (length (hd inputSequence)) (mu_dims1 results) temperature rs = Inr (nextPose, rs1)"
  using sampleFromMixture_returns by blast

lemma resume_completes:
  assumes "inputSequence \<noteq> []"
    and "sampleFromMixture (pi_data results) (mu_data results) (sigma_data results)
           (length (hd inputSequence)) (mu_dims1 results) temperature rs = Inr (nextPose, rs1)"
  shows "runGenerationStep_resume s inputSequence (Inr results) temperature rs =
     (s\<lparr>poseHistory := pushHistory (poseHistory s) (reshapeKeypoints nextPose),
        currentSequence := Some (smoothPose (pushHistory (poseHistory s) (reshapeKeypoints nextPose))
                                   (reshapeKeypoints nextPose)),
        drawn := smoothPose (pushHistory (poseHistory s) (reshapeKeypoints nextPose))
                   (reshapeKeypoints nextPose) # drawn s,
        scheduledTimeouts := Suc (scheduledTimeouts s)\<rparr>,
      advanceWindow inputSequence nextPose, rs1)"
  using assms by (cases inputSequence) (simp_all add: runGenerationStep_resume_def Let_def)

lemmas step_eval = runGenerationStep_resume_def runGenerationStep_start_def stopGeneration_def
  pushHistory_def MAX_HISTORY_def advanceWindow_def sampleFromMixture_def temperatureWeights_def
  sampleFromCategorical_def selectedSlice_def js_slice_def js_nth_def Math_random_const
  sampleFromGaussian_zero_stddev_const Let_def

text \<open>
  C7. On a window that is not empty (the step throws on an empty one before it reaches
  the two statements), advancing removes the entry of index 0 and appends the new vector
  at the end. The length stays the same; after the vectors \<open>vs\<close> have been appended one
  by one the window is what remains of the seed followed by \<open>vs\<close> once the first
  \<open>length vs\<close> entries are dropped, in the same order, so its last entry is the last
  appended vector and the first \<open>length vs\<close> entries of the seed are gone. A step that
  completes advances its window in this way.
\<close>

theorem advanceWindow_slides:
  assumes "window \<noteq> []"
  shows "advanceWindow window v = drop 1 window @ [v] \<and>
         length (advanceWindow window v) = length window \<and>
         foldl advanceWindow window vs = drop (length vs) (window @ vs) \<and>
         length (foldl advanceWindow window vs) = length window \<and>
         (length vs \<le> length window \<longrightarrow>
            foldl advanceWindow window vs = drop (length vs) window @ vs) \<and>
         (vs \<noteq> [] \<longrightarrow> last (foldl advanceWindow window vs) = last vs) \<and>
         (\<exists>nextPose rs1 s1.
            runGenerationStep_resume s window (Inr results) temperature rs
              = (s1, advanceWindow window nextPose, rs1))"
proof -
  have 1: "advanceWindow window v = drop 1 window @ [v]"
    by (simp add: advanceWindow_def drop_Suc)
  have 2: "length (advanceWindow window v) = length window"
    using assms by (rule length_advanceWindow)
  have 3: "foldl advanceWindow window vs = drop (length vs) (window @ vs)"
    using assms by (rule foldl_advanceWindow)
  have 4: "length (foldl advanceWindow window vs) = length window"
    by (simp add: 3)
  have 5: "length vs \<le> length window \<longrightarrow>
            foldl advanceWindow window vs = drop (length vs) window @ vs"
    by (simp add: 3)
  have 6: "vs \<noteq> [] \<longrightarrow> last (foldl advanceWindow window vs) = last vs"
  proof
    assume vs: "vs \<noteq> []"
    have "length vs < length (window @ vs)" using assms by simp
    then have "last (drop (length vs) (window @ vs)) = last (window @ vs)"
      by (rule last_drop)
    with vs show "last (foldl advanceWindow window vs) = last vs"
      by (simp add: 3 del: drop_append)
  qed
  obtain nextPose rs1 where smp:
    "sampleFromMixture (pi_data results) (mu_data results) (sigma_data results)
       (length (hd window)) (mu_dims1 results) temperature rs = Inr (nextPose, rs1)"
    using sample_exists by blast
  have 7: "\<exists>nextPose rs1 s1.
            runGenerationStep_resume s window (Inr results) temperature rs
              = (s1, advanceWindow window nextPose, rs1)"
    using resume_completes [OF assms smp, of s] by blast
  from 1 2 3 4 5 6 7 show ?thesis by blast
qed

theorem advanceWindow_slides_witness:
  "foldl advanceWindow [[Fin 1], [Fin 2], [Fin 3]] [[Fin 4], [Fin 5]]
     = [[Fin 3], [Fin 4], [Fin 5]]"
  using advanceWindow_slides [of "[[Fin 1], [Fin 2], [Fin 3]]" "[Fin 4]" "[[Fin 4], [Fin 5]]"]
  by (simp add: advanceWindow_def)


text \<open>
  C1, as the specification words it, fails. A step starts on a window of two vectors and
  is suspended on the inference call; \<^verbatim>\<open>stopGeneration\<close> runs; the call then resolves.
  The step does not discard the result: the window has changed, a pose has been drawn
  and the history has one entry.
\<close>

theorem stop_during_await_counterexample:
  "runGenerationStep_start
     \<lparr>isGenerating = True, animationFrameId = None, currentSequence = None, poseHistory = [],
      drawn = [], scheduledTimeouts = 0, errorsShown = 0\<rparr>
     [[Fin 0, Fin 0], [Fin 5, Fin 5]]
   = (\<lparr>isGenerating = True, animationFrameId = None, currentSequence = None, poseHistory = [],
       drawn = [], scheduledTimeouts = 0, errorsShown = 0\<rparr>, True) \<and>
   runGenerationStep_resume
     (stopGeneration
        \<lparr>isGenerating = True, animationFrameId = None, currentSequence = None, poseHistory = [],
         drawn = [], scheduledTimeouts = 0, errorsShown = 0\<rparr>)
     [[Fin 0, Fin 0], [Fin 5, Fin 5]]
     (Inr \<lparr>pi_data = [Fin 1], mu_data = [Fin 7, Fin 8], sigma_data = [Fin 0, Fin 0],
           mu_dims1 = 1\<rparr>)
     (Fin 1) (const_rng (1/2))
   = (\<lparr>isGenerating = False, animationFrameId = None,
       currentSequence = Some [(Fin 7, Fin 8)], poseHistory = [[(Fin 7, Fin 8)]],
       drawn = [[(Fin 7, Fin 8)]], scheduledTimeouts = 1, errorsShown = 0\<rparr>,
      [[Fin 5, Fin 5], [Fin 7, Fin 8]], const_rng (1/2))"
  by (simp add: step_eval smoothPose_def smoothKeypoint_def strict_eq_def skipped_def
      history_weight_value blend_def jsub_def)

text \<open>
  C1, amended. \<^verbatim>\<open>runGenerationStep\<close> tests \<^verbatim>\<open>isGenerating\<close> only at its entry. If
  \<^verbatim>\<open>stopGeneration\<close> runs while a step is suspended on the inference call and the call
  then resolves, the step completes: the window is advanced by the sampled vector (its
  length stays the same), the history is updated and the smoothed pose is drawn. The
  loop ends at the entry of the next step, which finds \<^verbatim>\<open>isGenerating\<close> false and
  returns at once, leaving state and window as they are.
\<close>

theorem stop_during_await_completes_step:
  assumes "runGenerationStep_start s inputSequence = (s, True)"
  shows "\<exists>nextPose rs1 s1.
     sampleFromMixture (pi_data results) (mu_data results) (sigma_data results)
       (length (hd inputSequence)) (mu_dims1 results) temperature rs = Inr (nextPose, rs1) \<and>
     runGenerationStep_resume (stopGeneration s) inputSequence (Inr results) temperature rs
       = (s1, advanceWindow inputSequence nextPose, rs1) \<and>
     length (advanceWindow inputSequence nextPose) = length inputSequence \<and>
     poseHistory s1 = pushHistory (poseHistory s) (reshapeKeypoints nextPose) \<and>
     drawn s1 = smoothPose (poseHistory s1) (reshapeKeypoints nextPose) # drawn s \<and>
     currentSequence s1 = Some (smoothPose (poseHistory s1) (reshapeKeypoints nextPose)) \<and>
     isGenerating s1 = False \<and>
     runGenerationStep_start s1 (advanceWindow inputSequence nextPose) = (s1, False)"
proof -
  obtain nextPose rs1 where smp:
    "sampleFromMixture (pi_data results) (mu_data results) (sigma_data results)
       (length (hd inputSequence)) (mu_dims1 results) temperature rs = Inr (nextPose, rs1)"
    using sample_exists by blast
  have ne: "inputSequence \<noteq> []"
    using assms by (auto simp: runGenerationStep_start_def split: if_splits)
  note r = resume_completes [OF ne smp, of "stopGeneration s"]
  show ?thesis
    apply (rule exI [of _ nextPose], rule exI [of _ rs1])
    apply (rule exI [of _ "fst (runGenerationStep_resume (stopGeneration s) inputSequence
             (Inr results) temperature rs)"])
    using ne
    apply (simp add: smp r length_advanceWindow)
    apply (simp add: stopGeneration_def runGenerationStep_start_def)
    done
qed

theorem stop_during_await_completes_step_witness:
  "\<exists>nextPose rs1 s1.
     runGenerationStep_resume
       (stopGeneration
          \<lparr>isGenerating = True, animationFrameId = None, currentSequence = None,
           poseHistory = [], drawn = [], scheduledTimeouts = 0, errorsShown = 0\<rparr>)
       [[Fin 0, Fin 0], [Fin 5, Fin 5]]
       (Inr \<lparr>pi_data = [Fin 1], mu_data = [Fin 7, Fin 8], sigma_data = [Fin 0, Fin 0],
             mu_dims1 = 1\<rparr>)
       (Fin 1) (const_rng (1/2))
     = (s1, advanceWindow [[Fin 0, Fin 0], [Fin 5, Fin 5]] nextPose, rs1) \<and>
     drawn s1 = [smoothPose (poseHistory s1) (reshapeKeypoints nextPose)] \<and>
     isGenerating s1 = False"
  using stop_during_await_completes_step
    [of "\<lparr>isGenerating = True, animationFrameId = None, currentSequence = None,
          poseHistory = [], drawn = [], scheduledTimeouts = 0, errorsShown = 0\<rparr>"
        "[[Fin 0, Fin 0], [Fin 5, Fin 5]]"
        "\<lparr>pi_data = [Fin 1], mu_data = [Fin 7, Fin 8], sigma_data = [Fin 0, Fin 0],
          mu_dims1 = 1\<rparr>"
        "Fin 1" "const_rng (1/2)"]
  by (simp add: runGenerationStep_start_def) blast


text \<open>
  C3, as the specification words it, fails. The history holds the pose \<open>(10, 10)\<close> of
  an earlier step and the step samples \<open>(1, 1)\<close>. The pose drawn is \<open>(3.7, 3.7)\<close>, the
  smoothing against a history that already starts with \<open>(1, 1)\<close> itself; smoothing
  against the earlier pose alone would give \<open>(6.4, 6.4)\<close>.
\<close>

theorem history_pushed_before_smoothing_counterexample:
  "runGenerationStep_resume
     \<lparr>isGenerating = True, animationFrameId = None, currentSequence = None,
      poseHistory = [[(Fin 10, Fin 10)]], drawn = [], scheduledTimeouts = 0, errorsShown = 0\<rparr>
     [[Fin 0, Fin 0]]
     (Inr \<lparr>pi_data = [Fin 1], mu_data = [Fin 1, Fin 1], sigma_data = [Fin 0, Fin 0],
           mu_dims1 = 1\<rparr>)
     (Fin 1) (const_rng (1/2))
   = (\<lparr>isGenerating = True, animationFrameId = None,
       currentSequence = Some [(Fin 3.7, Fin 3.7)],
       poseHistory = [[(Fin 1, Fin 1)], [(Fin 10, Fin 10)]],
       drawn = [[(Fin 3.7, Fin 3.7)]], scheduledTimeouts = 1, errorsShown = 0\<rparr>,
      [[Fin 1, Fin 1]], const_rng (1/2)) \<and>
   smoothPose [[(Fin 1, Fin 1)], [(Fin 10, Fin 10)]] [(Fin 1, Fin 1)] = [(Fin 3.7, Fin 3.7)] \<and>
   smoothPose [[(Fin 10, Fin 10)]] [(Fin 1, Fin 1)] = [(Fin 6.4, Fin 6.4)]"
  by (simp add: step_eval smoothPose_def smoothKeypoint_def strict_eq_def skipped_def
      history_weight_value blend_def jsub_def)

text \<open>
  C3, amended. In a step the unsmoothed new pose is pushed onto the front of the history,
  and the history cut to \<open>MAX_HISTORY = 5\<close> entries, before \<^verbatim>\<open>smoothPose\<close> is called: the
  history that the call consults has the pose being smoothed as its first entry,
  followed by the poses of at most four earlier steps.
\<close>

theorem history_pushed_before_smoothing:
  assumes "inputSequence \<noteq> []" and "length (poseHistory s) \<le> MAX_HISTORY"
  shows "\<exists>nextPose rs1 s1.
     sampleFromMixture (pi_data results) (mu_data results) (sigma_data results)
       (length (hd inputSequence)) (mu_dims1 results) temperature rs = Inr (nextPose, rs1) \<and>
     runGenerationStep_resume s inputSequence (Inr results) temperature rs
       = (s1, advanceWindow inputSequence nextPose, rs1) \<and>
     poseHistory s1 = take MAX_HISTORY (reshapeKeypoints nextPose # poseHistory s) \<and>
     hd (poseHistory s1) = reshapeKeypoints nextPose \<and>
     length (poseHistory s1) \<le> MAX_HISTORY \<and>
     hd (drawn s1) = smoothPose (take MAX_HISTORY (reshapeKeypoints nextPose # poseHistory s))
                       (reshapeKeypoints nextPose)"
proof -
  obtain nextPose rs1 where smp:
    "sampleFromMixture (pi_data results) (mu_data results) (sigma_data results)
       (length (hd inputSequence)) (mu_dims1 results) temperature rs = Inr (nextPose, rs1)"
    using sample_exists by blast
  note r = resume_completes [OF assms(1) smp, of s]
  have h: "hd (take MAX_HISTORY (reshapeKeypoints nextPose # poseHistory s))
             = reshapeKeypoints nextPose"
    by (simp add: MAX_HISTORY_def)
  show ?thesis
    apply (rule exI [of _ nextPose], rule exI [of _ rs1])
    apply (rule exI [of _ "fst (runGenerationStep_resume s inputSequence
             (Inr results) temperature rs)"])
    apply (simp add: smp r pushHistory_take [OF assms(2)] h)
    done
qed

theorem history_pushed_before_smoothing_witness:
  "\<exists>nextPose rs1 s1.
     runGenerationStep_resume
       \<lparr>isGenerating = True, animationFrameId = None, currentSequence = None,
        poseHistory = [[(Fin 10, Fin 10)]], drawn = [], scheduledTimeouts = 0,
        errorsShown = 0\<rparr>
       [[Fin 0, Fin 0]]
       (Inr \<lparr>pi_data = [Fin 1], mu_data = [Fin 1, Fin 1], sigma_data = [Fin 0, Fin 0],
             mu_dims1 = 1\<rparr>)
       (Fin 1) (const_rng (1/2))
     = (s1, advanceWindow [[Fin 0, Fin 0]] nextPose, rs1) \<and>
     poseHistory s1 = take MAX_HISTORY [reshapeKeypoints nextPose, [(Fin 10, Fin 10)]] \<and>
     hd (poseHistory s1) = reshapeKeypoints nextPose"
  using history_pushed_before_smoothing
    [of "[[Fin 0, Fin 0]]"
        "\<lparr>isGenerating = True, animationFrameId = None, currentSequence = None,
          poseHistory = [[(Fin 10, Fin 10)]], drawn = [], scheduledTimeouts = 0,
          errorsShown = 0\<rparr>"
        "\<lparr>pi_data = [Fin 1], mu_data = [Fin 1, Fin 1], sigma_data = [Fin 0, Fin 0],
          mu_dims1 = 1\<rparr>"
        "Fin 1" "const_rng (1/2)"]
  by (simp add: MAX_HISTORY_def) blast

end
